theory Spec2Isabelle
  imports Complex_Main "HOL-Library.AList"
begin

section \<open>JavaScript numbers\<close>

text \<open>
  The dashboard computes with JavaScript numbers. The numbers that arrive in the dataset
  are finite (they are read from JSON) and are modelled as \<open>real\<close>; rounding and
  overflow of IEEE doubles are not modelled. What is modelled is the part of the number
  domain that a division can reach: a JavaScript division never raises, it yields
  \<open>NaN\<close> or an infinity. Signed zeros are identified, so a division of a non-zero
  number by zero takes its sign from the dividend.
\<close>

datatype jsnum = Num real | PInf | NInf | NaN

fun js_neg :: "jsnum \<Rightarrow> jsnum" where
  "js_neg (Num a) = Num (- a)"
| "js_neg PInf = NInf"
| "js_neg NInf = PInf"
| "js_neg NaN = NaN"

fun js_add :: "jsnum \<Rightarrow> jsnum \<Rightarrow> jsnum" where
  "js_add NaN _ = NaN"
| "js_add _ NaN = NaN"
| "js_add (Num a) (Num b) = Num (a + b)"
| "js_add PInf NInf = NaN"
| "js_add NInf PInf = NaN"
| "js_add PInf _ = PInf"
| "js_add NInf _ = NInf"
| "js_add (Num a) PInf = PInf"
| "js_add (Num a) NInf = NInf"

definition js_sub :: "jsnum \<Rightarrow> jsnum \<Rightarrow> jsnum" where
  "js_sub a b = js_add a (js_neg b)"

text \<open>The sign of a number, as an infinity; zero has none (\<open>0 * Infinity\<close> is \<open>NaN\<close>).\<close>

definition inf_of_sign :: "real \<Rightarrow> jsnum" where
  "inf_of_sign s = (if s > 0 then PInf else if s < 0 then NInf else NaN)"

fun js_mul :: "jsnum \<Rightarrow> jsnum \<Rightarrow> jsnum" where
  "js_mul NaN _ = NaN"
| "js_mul _ NaN = NaN"
| "js_mul (Num a) (Num b) = Num (a * b)"
| "js_mul (Num a) PInf = inf_of_sign a"
| "js_mul (Num a) NInf = inf_of_sign (- a)"
| "js_mul PInf (Num b) = inf_of_sign b"
| "js_mul NInf (Num b) = inf_of_sign (- b)"
| "js_mul PInf PInf = PInf"
| "js_mul NInf NInf = PInf"
| "js_mul PInf NInf = NInf"
| "js_mul NInf PInf = NInf"

fun js_div :: "jsnum \<Rightarrow> jsnum \<Rightarrow> jsnum" where
  "js_div NaN _ = NaN"
| "js_div _ NaN = NaN"
| "js_div (Num a) (Num b) = (if b = 0 then inf_of_sign a else Num (a / b))"
| "js_div (Num a) _ = Num 0"
| "js_div PInf (Num b) = (if b < 0 then NInf else PInf)"
| "js_div NInf (Num b) = (if b < 0 then PInf else NInf)"
| "js_div _ _ = NaN"

text \<open>Truthiness of a number (\<open>!x\<close>, \<open>x || y\<close>): zero and \<open>NaN\<close> are falsy.\<close>

fun js_truthy :: "jsnum \<Rightarrow> bool" where
  "js_truthy (Num a) = (a \<noteq> 0)"
| "js_truthy NaN = False"
| "js_truthy _ = True"

definition js_or :: "jsnum \<Rightarrow> jsnum \<Rightarrow> jsnum" where
  "js_or a b = (if js_truthy a then a else b)"

text \<open>Strict equality \<open>===\<close> and the comparison \<open><=\<close>: both are false on \<open>NaN\<close>.\<close>

fun js_seq :: "jsnum \<Rightarrow> jsnum \<Rightarrow> bool" where
  "js_seq (Num a) (Num b) = (a = b)"
| "js_seq PInf PInf = True"
| "js_seq NInf NInf = True"
| "js_seq _ _ = False"

fun js_le :: "jsnum \<Rightarrow> jsnum \<Rightarrow> bool" where
  "js_le NaN _ = False"
| "js_le _ NaN = False"
| "js_le (Num a) (Num b) = (a \<le> b)"
| "js_le NInf _ = True"
| "js_le _ PInf = True"
| "js_le _ _ = False"

section \<open>Metric primitives\<close>

text \<open>
  The two derived rates are written inline where they are used
  (\<open>data.impressions > 0 ? (data.clicks / data.impressions) * 100 : 0\<close> in the
  demographic tables, \<open>device.impressions > 0 ? ...\<close> in the device summary).
\<close>

definition ctr :: "real \<Rightarrow> real \<Rightarrow> jsnum" where
  "ctr clicks impressions =
     (if impressions > 0 then js_mul (js_div (Num clicks) (Num impressions)) (Num 100)
      else Num 0)"

definition conversionRate :: "real \<Rightarrow> real \<Rightarrow> jsnum" where
  "conversionRate conversions clicks =
     (if clicks > 0 then js_mul (js_div (Num conversions) (Num clicks)) (Num 100)
      else Num 0)"

section \<open>Strings, dictionaries and sorting\<close>

text \<open>
  \<open>String.prototype.toLowerCase\<close> on the ASCII letters; the labels of the dataset
  (\<open>Male\<close>, \<open>Mobile\<close>, ...) are ASCII.
\<close>

definition lower_char :: "char \<Rightarrow> char" where
  "lower_char c =
     (case map_of (zip ''ABCDEFGHIJKLMNOPQRSTUVWXYZ'' ''abcdefghijklmnopqrstuvwxyz'') c of
        Some l \<Rightarrow> l
      | None \<Rightarrow> c)"

definition toLowerCase :: "string \<Rightarrow> string" where
  "toLowerCase s = map lower_char s"

text \<open>
  A JavaScript object used as a dictionary with string keys is an association list of its
  own properties in insertion order: \<open>map_of\<close> reads an own key and \<open>AList.update\<close>
  overwrites the value of a key in place or appends a new key at the end. The device,
  demographic and weekly dictionaries are modelled on their own properties, enumerated in
  insertion order: their keys are taken to be neither canonical array indices nor names
  of members inherited from \<open>Object.prototype\<close>. For the region map and the coordinate
  table both are modelled, by \<open>js_get\<close> and \<open>object_entries\<close> below.
\<close>

type_synonym 'v dict = "(string \<times> 'v) list"

text \<open>
  Reading \<open>obj[key]\<close> on an object literal: the own property when there is one,
  otherwise the member of that name inherited from \<open>Object.prototype\<close> (a function, or
  for \<open>__proto__\<close> the prototype object itself: truthy in either case), otherwise
  \<open>undefined\<close>.
\<close>

datatype 'v lookup = Own 'v | Inherited | Undefined

definition object_prototype_names :: "string list" where
  "object_prototype_names =
     [''constructor'', ''__defineGetter__'', ''__defineSetter__'', ''hasOwnProperty'',
      ''__lookupGetter__'', ''__lookupSetter__'', ''isPrototypeOf'',
      ''propertyIsEnumerable'', ''toString'', ''valueOf'', ''__proto__'',
      ''toLocaleString'']"

definition js_get :: "'v dict \<Rightarrow> string \<Rightarrow> 'v lookup" where
  "js_get obj k =
     (case map_of obj k of
        Some v \<Rightarrow> Own v
      | None \<Rightarrow> if k \<in> set object_prototype_names then Inherited else Undefined)"

text \<open>Decimal digits, and the number a string of digits denotes.\<close>

definition digit_of :: "char \<Rightarrow> nat option" where
  "digit_of c = map_of (zip ''0123456789'' [0, 1, 2, 3, 4, 5, 6, 7, 8, 9]) c"

fun nat_of_digits :: "nat \<Rightarrow> string \<Rightarrow> nat option" where
  "nat_of_digits acc [] = Some acc"
| "nat_of_digits acc (c # cs) =
     (case digit_of c of None \<Rightarrow> None | Some d \<Rightarrow> nat_of_digits (10 * acc + d) cs)"

text \<open>
  \<open>Object.entries\<close>: the keys that are canonical array indices (decimal, no leading
  zero, below \<open>2^32 - 1\<close>) come first, in ascending numeric order; the other keys
  follow in insertion order.
\<close>

definition array_index :: "string \<Rightarrow> nat option" where
  "array_index s =
     (if s = [] \<or> (hd s = CHR ''0'' \<and> s \<noteq> ''0'') then None
      else (case nat_of_digits 0 s of
              Some n \<Rightarrow> if n < 4294967295 then Some n else None
            | None \<Rightarrow> None))"

definition object_entries :: "'v dict \<Rightarrow> (string \<times> 'v) list" where
  "object_entries obj =
     sort_key (\<lambda>e. case array_index (fst e) of Some n \<Rightarrow> n | None \<Rightarrow> 0)
       (filter (\<lambda>e. array_index (fst e) \<noteq> None) obj)
     @ filter (\<lambda>e. array_index (fst e) = None) obj"

text \<open>
  \<open>Array.prototype.sort\<close> with a comparator: the sort is stable, the element \<open>a\<close>
  goes after \<open>b\<close> exactly when \<open>cmp a b > 0\<close>, and a comparator result of
  \<open>NaN\<close> counts as \<open>0\<close>. For a consistent comparator the result of a stable sort
  is unique; it is computed here by insertion.
\<close>

fun js_pos :: "jsnum \<Rightarrow> bool" where
  "js_pos (Num a) = (a > 0)"
| "js_pos PInf = True"
| "js_pos _ = False"

fun js_insort :: "('a \<Rightarrow> 'a \<Rightarrow> jsnum) \<Rightarrow> 'a \<Rightarrow> 'a list \<Rightarrow> 'a list" where
  "js_insort cmp x [] = [x]"
| "js_insort cmp x (y # ys) =
     (if js_pos (cmp x y) then y # js_insort cmp x ys else x # y # ys)"

definition js_sort :: "('a \<Rightarrow> 'a \<Rightarrow> jsnum) \<Rightarrow> 'a list \<Rightarrow> 'a list" where
  "js_sort cmp xs = foldr (js_insort cmp) xs []"


section \<open>Data model\<close>

text \<open>
  Modelled from the spec: the type declarations of \<open>src/types/marketing\<close> are not part
  of the sources at hand; the records below carry the fields that the aggregators read,
  with the types the specification's data model gives them. Fields of different records
  that share a name in the source carry a prefix here (\<open>d_\<close> device, \<open>r_\<close> region,
  \<open>w_\<close> week).
\<close>

record PerformanceCounters =
  impressions :: real
  clicks :: real
  conversions :: real

record DemographicBreakdown =
  gender :: string
  age_group :: string
  performance :: PerformanceCounters

record DevicePerformance =
  device :: string
  d_impressions :: real
  d_clicks :: real
  d_conversions :: real
  d_spend :: real
  d_revenue :: real
  d_ctr :: jsnum
  d_conversion_rate :: jsnum
  percentage_of_traffic :: real

record RegionalPerformance =
  region :: string
  country :: string
  r_spend :: real
  r_revenue :: real

record WeeklyPerformance =
  week_start :: string
  week_end :: string
  w_spend :: real
  w_revenue :: real

record Campaign =
  spend :: real
  revenue :: real
  demographic_breakdown :: "DemographicBreakdown list"
  device_performance :: "DevicePerformance list"
  regional_performance :: "RegionalPerformance list"
  weekly_performance :: "WeeklyPerformance list"

section \<open>Device aggregation\<close>

text \<open>
  \<open>deviceMetrics\<close> of the device view. The body of the inner \<open>forEach\<close> is
  \<open>device_step\<close>: it creates the entry of the lower-cased key when the key is new
  (keeping the label of the first record seen), adds the five counters and overwrites
  \<open>percentage_of_traffic\<close>.
\<close>

definition device_step :: "DevicePerformance dict \<Rightarrow> DevicePerformance \<Rightarrow> DevicePerformance dict" where
  "device_step deviceMap dv =
     (let deviceKey = toLowerCase (device dv);
          e = (case map_of deviceMap deviceKey of
                 None \<Rightarrow> \<lparr>device = device dv, d_impressions = 0, d_clicks = 0,
                           d_conversions = 0, d_spend = 0, d_revenue = 0, d_ctr = Num 0,
                           d_conversion_rate = Num 0, percentage_of_traffic = 0\<rparr>
               | Some e \<Rightarrow> e)
      in AList.update deviceKey
           (e\<lparr>d_impressions := d_impressions e + d_impressions dv,
              d_clicks := d_clicks e + d_clicks dv,
              d_conversions := d_conversions e + d_conversions dv,
              d_spend := d_spend e + d_spend dv,
              d_revenue := d_revenue e + d_revenue dv,
              percentage_of_traffic := percentage_of_traffic dv\<rparr>)
           deviceMap)"

definition device_loop :: "Campaign list \<Rightarrow> DevicePerformance dict" where
  "device_loop campaigns =
     foldl (\<lambda>deviceMap campaign. foldl device_step deviceMap (device_performance campaign))
       [] campaigns"

text \<open>The second pass recomputes both rates of every entry from its summed counters.\<close>

definition device_rates :: "DevicePerformance \<Rightarrow> DevicePerformance" where
  "device_rates dv =
     dv\<lparr>d_ctr := ctr (d_clicks dv) (d_impressions dv),
        d_conversion_rate := conversionRate (d_conversions dv) (d_clicks dv)\<rparr>"

definition deviceMap_of :: "Campaign list \<Rightarrow> DevicePerformance dict" where
  "deviceMap_of campaigns = map (\<lambda>(k, dv). (k, device_rates dv)) (device_loop campaigns)"

record DeviceMetrics =
  mobile :: "DevicePerformance option"
  desktop :: "DevicePerformance option"

text \<open>
  The dataset may be absent (\<open>!marketingData?.campaigns\<close>), then the result is
  \<open>null\<close>; a key that no record carries reads as \<open>undefined\<close>.
\<close>

definition deviceMetrics :: "Campaign list option \<Rightarrow> DeviceMetrics option" where
  "deviceMetrics marketingData =
     (case marketingData of
        None \<Rightarrow> None
      | Some campaigns \<Rightarrow>
          Some \<lparr>mobile = map_of (deviceMap_of campaigns) ''mobile'',
                desktop = map_of (deviceMap_of campaigns) ''desktop''\<rparr>)"

text \<open>The records of a key, in the order the loops visit them.\<close>

definition devices_with :: "string \<Rightarrow> Campaign list \<Rightarrow> DevicePerformance list" where
  "devices_with k campaigns =
     filter (\<lambda>dv. toLowerCase (device dv) = k) (concat (map device_performance campaigns))"

text \<open>A campaign with a single device record labelled \<open>Mobile\<close>, for the examples.\<close>

definition mobile_record :: "real \<Rightarrow> real \<Rightarrow> real \<Rightarrow> DevicePerformance" where
  "mobile_record imp clk pct =
     \<lparr>device = ''Mobile'', d_impressions = imp, d_clicks = clk, d_conversions = 0,
      d_spend = 0, d_revenue = 0, d_ctr = ctr clk imp, d_conversion_rate = Num 0,
      percentage_of_traffic = pct\<rparr>"

definition mobile_campaign :: "real \<Rightarrow> real \<Rightarrow> real \<Rightarrow> Campaign" where
  "mobile_campaign imp clk pct =
     \<lparr>spend = 0, revenue = 0, demographic_breakdown = [],
      device_performance = [mobile_record imp clk pct],
      regional_performance = [], weekly_performance = []\<rparr>"

section \<open>Demographic aggregation\<close>





























section \<open>Regions and their coordinates\<close>

record LatLng =
  lat :: real
  lng :: real

text \<open>
  The static table \<open>uaeCoordinates\<close>; the heat map component and the region view each
  declare it, with the same twenty entries.
\<close>

definition uaeCoordinates :: "LatLng dict" where
  "uaeCoordinates =
     [(''Dubai'', \<lparr>lat = 25.2048, lng = 55.2708\<rparr>),
      (''Sharjah'', \<lparr>lat = 25.3463, lng = 55.4209\<rparr>),
      (''Abu Dhabi'', \<lparr>lat = 24.4539, lng = 54.3773\<rparr>),
      (''Ajman'', \<lparr>lat = 25.4052, lng = 55.5136\<rparr>),
      (''Ras Al Khaimah'', \<lparr>lat = 25.6741, lng = 55.9804\<rparr>),
      (''Fujairah'', \<lparr>lat = 25.1288, lng = 56.3265\<rparr>),
      (''Umm Al Quwain'', \<lparr>lat = 25.5653, lng = 55.5533\<rparr>),
      (''Al Ain'', \<lparr>lat = 24.1302, lng = 55.8023\<rparr>),
      (''Riyadh'', \<lparr>lat = 24.7136, lng = 46.6753\<rparr>),
      (''Jeddah'', \<lparr>lat = 21.4858, lng = 39.1925\<rparr>),
      (''Doha'', \<lparr>lat = 25.2854, lng = 51.5310\<rparr>),
      (''Muscat'', \<lparr>lat = 23.5880, lng = 58.3829\<rparr>),
      (''Manama'', \<lparr>lat = 26.2235, lng = 50.5876\<rparr>),
      (''Kuwait City'', \<lparr>lat = 29.3759, lng = 47.9774\<rparr>),
      (''Cairo'', \<lparr>lat = 30.0444, lng = 31.2357\<rparr>),
      (''London'', \<lparr>lat = 51.5074, lng = - 0.1278\<rparr>),
      (''New York'', \<lparr>lat = 40.7128, lng = - 74.0060\<rparr>),
      (''Tokyo'', \<lparr>lat = 35.6762, lng = 139.6503\<rparr>),
      (''Singapore'', \<lparr>lat = 1.3521, lng = 103.8198\<rparr>),
      (''Mumbai'', \<lparr>lat = 19.0760, lng = 72.8777\<rparr>)]"

text \<open>
  \<open>coords = uaeCoordinates[region] || { lat: 24.0, lng: 54.0 }\<close>. An entry of the table
  is an object, hence truthy, and so is a member inherited from \<open>Object.prototype\<close>:
  only an \<open>undefined\<close> lookup takes the fallback. \<open>coords.lat\<close> and \<open>coords.lng\<close>
  of an inherited member are \<open>undefined\<close>, here \<open>None\<close>.
\<close>

datatype coords = Entry LatLng | Member

definition coords_of :: "string \<Rightarrow> coords" where
  "coords_of r =
     (case js_get uaeCoordinates r of
        Own c \<Rightarrow> Entry c
      | Inherited \<Rightarrow> Member
      | Undefined \<Rightarrow> Entry \<lparr>lat = 24.0, lng = 54.0\<rparr>)"

fun coords_lat :: "coords \<Rightarrow> real option" where
  "coords_lat (Entry c) = Some (lat c)"
| "coords_lat Member = None"

fun coords_lng :: "coords \<Rightarrow> real option" where
  "coords_lng (Entry c) = Some (lng c)"
| "coords_lng Member = None"

record HeatMapDataPoint =
  p_region :: string
  p_country :: string
  p_value :: real
  p_lat :: "real option"
  p_lng :: "real option"
  p_color :: "string option"

section \<open>Regional aggregation\<close>

record RegionTotals =
  t_spend :: real
  t_revenue :: real
  t_country :: string

text \<open>
  The body of the inner \<open>forEach\<close> of \<open>regionalData\<close>. The entry of a region is
  created when \<open>!regionMap[region.region]\<close> holds, that is when the lookup is
  \<open>undefined\<close>; then spend and revenue are added to \<open>regionMap[region.region]\<close>. When
  the label names an inherited member the test fails, no entry is created, and the two
  additions write to that member, which the rollup never reads: the map is unchanged.
\<close>

definition region_step :: "RegionTotals dict \<Rightarrow> RegionalPerformance \<Rightarrow> RegionTotals dict" where
  "region_step regionMap rp =
     (case js_get regionMap (region rp) of
        Undefined \<Rightarrow>
          AList.update (region rp)
            \<lparr>t_spend = 0 + r_spend rp, t_revenue = 0 + r_revenue rp, t_country = country rp\<rparr>
            regionMap
      | Own e \<Rightarrow>
          AList.update (region rp)
            (e\<lparr>t_spend := t_spend e + r_spend rp, t_revenue := t_revenue e + r_revenue rp\<rparr>)
            regionMap
      | Inherited \<Rightarrow> regionMap)"

definition region_loop :: "Campaign list \<Rightarrow> RegionTotals dict" where
  "region_loop campaigns =
     foldl (\<lambda>regionMap campaign. foldl region_step regionMap (regional_performance campaign))
       [] campaigns"

definition heat_point :: "(RegionTotals \<Rightarrow> real) \<Rightarrow> string \<times> RegionTotals \<Rightarrow> HeatMapDataPoint" where
  "heat_point field e =
     (let coords = coords_of (fst e)
      in \<lparr>p_region = fst e, p_country = t_country (snd e), p_value = field (snd e),
          p_lat = coords_lat coords, p_lng = coords_lng coords, p_color = None\<rparr>)"

record RegionalData =
  revenueData :: "HeatMapDataPoint list"
  spendData :: "HeatMapDataPoint list"

definition regionalData :: "Campaign list option \<Rightarrow> RegionalData option" where
  "regionalData marketingData =
     (case marketingData of
        None \<Rightarrow> None
      | Some campaigns \<Rightarrow>
          Some \<lparr>revenueData = map (heat_point t_revenue) (object_entries (region_loop campaigns)),
                spendData = map (heat_point t_spend) (object_entries (region_loop campaigns))\<rparr>)"

text \<open>Regional records and a campaign that carries them, for the examples.\<close>

definition region_record :: "string \<Rightarrow> real \<Rightarrow> real \<Rightarrow> RegionalPerformance" where
  "region_record r sp rv = \<lparr>region = r, country = ''UAE'', r_spend = sp, r_revenue = rv\<rparr>"

definition region_campaign :: "RegionalPerformance list \<Rightarrow> Campaign" where
  "region_campaign regions =
     \<lparr>spend = 0, revenue = 0, demographic_breakdown = [], device_performance = [],
      regional_performance = regions, weekly_performance = []\<rparr>"

section \<open>Heat map\<close>

text \<open>
  The \<open>data\<close> property of the component is a JavaScript array of point objects. The
  table sorts that array in place, and the effect that draws the circles reads the same
  array, so the array is modelled as state: a list of objects, each with the address that
  identifies it and its fields. The point objects themselves are never written.
\<close>

type_synonym 'a obj = "nat \<times> 'a"

definition colorScale :: "string list" where
  "colorScale =
     [''#3B82F6'', ''#10B981'', ''#F59E0B'', ''#EF4444'', ''#8B5CF6'',
      ''#06B6D4'', ''#84CC16'', ''#F97316'', ''#EC4899'', ''#6366F1'']"

text \<open>
  \<open>point.color || colorScale[index % colorScale.length]\<close>: a missing and an empty
  colour string are both falsy.
\<close>

definition point_color :: "nat \<Rightarrow> HeatMapDataPoint \<Rightarrow> string" where
  "point_color index point =
     (case p_color point of
        None \<Rightarrow> colorScale ! (index mod length colorScale)
      | Some c \<Rightarrow> if c = [] then colorScale ! (index mod length colorScale) else c)"

text \<open>\<open>Math.max(...values)\<close> and \<open>Math.min(...values)\<close>; of no arguments they are infinite.\<close>

fun math_max :: "real list \<Rightarrow> jsnum" where
  "math_max [] = NInf"
| "math_max (x # xs) = Num (fold max xs x)"

fun math_min :: "real list \<Rightarrow> jsnum" where
  "math_min [] = PInf"
| "math_min (x # xs) = Num (fold min xs x)"

record TableRow =
  row_point :: nat
  row_color :: string
  row_region :: string
  row_country :: string
  row_value :: real

record Circle =
  c_point :: nat
  c_center :: "real option \<times> real option"
  c_radius :: jsnum
  c_color :: string
  c_region :: string

text \<open>
  The function body of the component (one render). With no data it returns the empty
  state before the table is reached. Otherwise the table expression
  \<open>data.sort((a, b) => b.value - a.value).map((point, index) => ...)\<close> sorts the array
  in place; the render returns the array as it leaves it, and the rows.
\<close>

definition heat_render :: "HeatMapDataPoint obj list \<Rightarrow> HeatMapDataPoint obj list \<times> TableRow list" where
  "heat_render data =
     (if data = [] then (data, [])
      else
        (let sorted = js_sort (\<lambda>a b. js_sub (Num (p_value (snd b))) (Num (p_value (snd a)))) data
         in (sorted,
             map (\<lambda>(index, point).
                    \<lparr>row_point = fst point, row_color = point_color index (snd point),
                     row_region = p_region (snd point), row_country = p_country (snd point),
                     row_value = p_value (snd point)\<rparr>)
               (enumerate 0 sorted))))"

text \<open>
  The effect \<open>loadLeaflet\<close>, on the path where the map library loads and the container
  is mounted: for each element of the array, in array order, the circle that the loop body
  computes and hands to \<open>L.circle\<close>, with the centre \<open>[coords.lat, coords.lng]\<close>. With
  no data it returns before drawing. Popup and tooltip texts are left out, and so is what
  the map library does with a circle (it rejects a centre with an \<open>undefined\<close>
  coordinate by raising an error, which the surrounding \<open>try\<close> catches and logs).
\<close>

definition heat_normalized :: "jsnum \<Rightarrow> jsnum \<Rightarrow> real \<Rightarrow> jsnum" where
  "heat_normalized maxValue minValue v =
     (if js_seq maxValue minValue then Num 0.5
      else js_div (js_sub (Num v) minValue) (js_sub maxValue minValue))"

definition loadLeaflet :: "HeatMapDataPoint obj list \<Rightarrow> Circle list" where
  "loadLeaflet data =
     (if data = [] then []
      else
        (let values = map (\<lambda>d. p_value (snd d)) data;
             maxValue = math_max values;
             minValue = math_min values
         in map (\<lambda>(index, point).
                   (let coords = coords_of (p_region (snd point));
                        normalized = heat_normalized maxValue minValue (p_value (snd point));
                        radius = js_add (Num 10000) (js_mul normalized (Num 150000))
                    in \<lparr>c_point = fst point, c_center = (coords_lat coords, coords_lng coords),
                        c_radius = radius,
                        c_color = point_color index (snd point),
                        c_region = p_region (snd point)\<rparr>))
              (enumerate 0 data)))"

text \<open>
  One mount of the component: the function body runs first, the effect registered by
  \<open>useEffect\<close> runs after the render has been committed, and so reads the array as the
  render left it.
\<close>

record HeatMapView =
  v_data :: "HeatMapDataPoint obj list"
  v_rows :: "TableRow list"
  v_circles :: "Circle list"

definition HeatMap :: "HeatMapDataPoint obj list \<Rightarrow> HeatMapView" where
  "HeatMap data =
     (let (data', rows) = heat_render data
      in \<lparr>v_data = data', v_rows = rows, v_circles = loadLeaflet data'\<rparr>)"

text \<open>The normalised value of the specification, over the values of the point set.\<close>

definition normalized_value :: "real list \<Rightarrow> real \<Rightarrow> real" where
  "normalized_value vs v =
     (if Max (set vs) = Min (set vs) then 1 / 2
      else (v - Min (set vs)) / (Max (set vs) - Min (set vs)))"

definition marker_radius :: "real list \<Rightarrow> real \<Rightarrow> real" where
  "marker_radius vs v = 10000 + normalized_value vs v * 150000"

definition heat_values :: "HeatMapDataPoint obj list \<Rightarrow> real list" where
  "heat_values data = map (\<lambda>d. p_value (snd d)) data"

definition heat_example :: "real \<Rightarrow> string \<Rightarrow> HeatMapDataPoint" where
  "heat_example v r =
     \<lparr>p_region = r, p_country = ''UAE'', p_value = v, p_lat = coords_lat (coords_of r),
      p_lng = coords_lng (coords_of r), p_color = None\<rparr>"

section \<open>Line chart geometry\<close>

record LineChartDataPoint =
  label :: string
  dp_value :: real
  dp_color :: "string option"

record LineChartSeries =
  s_name :: string
  s_data :: "LineChartDataPoint list"
  s_color :: "string option"

text \<open>\<open>[...new Set(xs)]\<close>: the distinct elements in the order of their first occurrence.\<close>

definition js_uniq :: "'a list \<Rightarrow> 'a list" where
  "js_uniq xs = foldl (\<lambda>acc x. if x \<in> set acc then acc else acc @ [x]) [] xs"

text \<open>\<open>Array.prototype.indexOf\<close>; \<open>None\<close> stands for \<open>-1\<close>.\<close>

fun index_of :: "'a list \<Rightarrow> 'a \<Rightarrow> nat option" where
  "index_of [] y = None"
| "index_of (x # xs) y = (if x = y then Some 0 else map_option Suc (index_of xs y))"

definition allLabels :: "LineChartSeries list \<Rightarrow> string list" where
  "allLabels series = js_uniq (concat (map (\<lambda>s. map label (s_data s)) series))"

definition allValues :: "LineChartSeries list \<Rightarrow> real list" where
  "allValues series = concat (map (\<lambda>s. map dp_value (s_data s)) series)"

definition maxValue :: "LineChartSeries list \<Rightarrow> jsnum" where
  "maxValue series = math_max (allValues series)"

definition minValue :: "LineChartSeries list \<Rightarrow> jsnum" where
  "minValue series = math_min (allValues series)"

definition yAxisMin :: "LineChartSeries list \<Rightarrow> jsnum" where
  "yAxisMin series =
     (if js_le (Num 0) (minValue series) then Num 0 else js_mul (minValue series) (Num 1.1))"

definition yAxisRange :: "LineChartSeries list \<Rightarrow> jsnum" where
  "yAxisRange series = js_sub (maxValue series) (yAxisMin series)"

definition chartWidth :: real where
  "chartWidth = 600"

definition chartHeight :: "real \<Rightarrow> real" where
  "chartHeight height = height - 120"

definition padding :: real where
  "padding = 80"

record Position =
  pos_x :: jsnum
  pos_y :: jsnum

text \<open>
  \<open>getPointPosition\<close> closes over the labels, the extreme values and the height of
  the chart; here they are computed from the series and the height. The x coordinate
  divides the index by \<open>allLabels.length - 1\<close> with no guard; the y coordinate divides by
  \<open>yAxisRange || 1\<close>.
\<close>

definition getPointPosition :: "LineChartSeries list \<Rightarrow> real \<Rightarrow> nat \<Rightarrow> real \<Rightarrow> Position" where
  "getPointPosition series height index v =
     \<lparr>pos_x =
        js_add (Num padding)
          (js_mul (js_div (Num (real index)) (Num (real (length (allLabels series)) - 1)))
             (Num (chartWidth - 2 * padding))),
      pos_y =
        js_add (Num padding)
          (js_mul (js_div (js_sub (maxValue series) (Num v)) (js_or (yAxisRange series) (Num 1)))
             (Num (chartHeight height - 2 * padding)))\<rparr>"

text \<open>
  The positions of the data points of one series (the circles, and the vertices of its
  path): a point whose label is not found is skipped.
\<close>

definition series_points :: "LineChartSeries list \<Rightarrow> real \<Rightarrow> LineChartSeries \<Rightarrow> Position list" where
  "series_points series height s =
     List.map_filter
       (\<lambda>point. case index_of (allLabels series) (label point) of
                  None \<Rightarrow> None
                | Some labelIndex \<Rightarrow> Some (getPointPosition series height labelIndex (dp_value point)))
       (s_data s)"

record ChartGeometry =
  axis_labels :: "(string \<times> jsnum) list"
  points :: "Position list list"

text \<open>
  The chart: \<open>None\<close> is the empty state (\<open>No data available\<close>); otherwise the
  x positions of the axis labels and the point positions of every series.
\<close>

definition LineChart :: "LineChartSeries list \<Rightarrow> real \<Rightarrow> ChartGeometry option" where
  "LineChart series height =
     (if series = [] \<or> list_all (\<lambda>s. s_data s = []) series then None
      else Some
        \<lparr>axis_labels =
           map (\<lambda>(index, l).
                  (l, js_add (Num padding)
                        (js_mul (js_div (Num (real index))
                                   (Num (real (length (allLabels series)) - 1)))
                           (Num (chartWidth - 2 * padding)))))
             (enumerate 0 (allLabels series)),
         points = map (series_points series height) series\<rparr>)"

text \<open>A chart of one series with a single data point, hence a single label.\<close>

definition single_point_series :: "LineChartSeries list" where
  "single_point_series =
     [\<lparr>s_name = ''Revenue'',
       s_data = [\<lparr>label = ''2024-01-01'', dp_value = 5, dp_color = None\<rparr>],
       s_color = None\<rparr>]"

section \<open>Weekly aggregation\<close>

text \<open>
  \<open>s.split(sep)[0]\<close> for a non-empty separator: the part of \<open>s\<close> before the first
  occurrence of \<open>sep\<close>, all of \<open>s\<close> when there is none.
\<close>

fun before_sep :: "string \<Rightarrow> string \<Rightarrow> string" where
  "before_sep sep [] = []"
| "before_sep sep (c # cs) =
     (if take (length sep) (c # cs) = sep then [] else c # before_sep sep cs)"

definition week_start_of :: "string \<Rightarrow> string" where
  "week_start_of weekLabel = before_sep '' to '' weekLabel"

record WeekTotals =
  wk_spend :: real
  wk_revenue :: real
  weekLabel :: string

definition weekKey :: "WeeklyPerformance \<Rightarrow> string" where
  "weekKey week = week_start week @ '' to '' @ week_end week"

definition weekly_step :: "WeekTotals dict \<Rightarrow> WeeklyPerformance \<Rightarrow> WeekTotals dict" where
  "weekly_step weeklyData week =
     (let e = (case map_of weeklyData (weekKey week) of
                 None \<Rightarrow> \<lparr>wk_spend = 0, wk_revenue = 0, weekLabel = weekKey week\<rparr>
               | Some e \<Rightarrow> e)
      in AList.update (weekKey week)
           (e\<lparr>wk_spend := wk_spend e + w_spend week, wk_revenue := wk_revenue e + w_revenue week\<rparr>)
           weeklyData)"

definition weekly_loop :: "Campaign list \<Rightarrow> WeekTotals dict" where
  "weekly_loop campaigns =
     foldl (\<lambda>weeklyData campaign. foldl weekly_step weeklyData (weekly_performance campaign))
       [] campaigns"

text \<open>
  The sort compares \<open>new Date(start).getTime()\<close> of the two week labels. The parser of
  date strings belongs to the JavaScript runtime and is a parameter \<open>getTime\<close> here: it
  yields the time stamp of a date string, or \<open>NaN\<close> for a string it does not accept.
\<close>

definition sortedWeeks :: "(string \<Rightarrow> jsnum) \<Rightarrow> Campaign list \<Rightarrow> WeekTotals list" where
  "sortedWeeks getTime campaigns =
     js_sort (\<lambda>a b. js_sub (getTime (week_start_of (weekLabel a)))
                            (getTime (week_start_of (weekLabel b))))
       (map snd (weekly_loop campaigns))"

record ChartPoint =
  cp_label :: string
  cp_value :: real

record WeeklyChartData =
  w_spendData :: "ChartPoint list"
  w_revenueData :: "ChartPoint list"

definition weeklyChartData :: "(string \<Rightarrow> jsnum) \<Rightarrow> Campaign list option \<Rightarrow> WeeklyChartData option" where
  "weeklyChartData getTime marketingData =
     (case marketingData of
        None \<Rightarrow> None
      | Some campaigns \<Rightarrow>
          Some
            \<lparr>w_spendData =
               map (\<lambda>week. \<lparr>cp_label = week_start_of (weekLabel week), cp_value = wk_spend week\<rparr>)
                 (sortedWeeks getTime campaigns),
             w_revenueData =
               map (\<lambda>week. \<lparr>cp_label = week_start_of (weekLabel week), cp_value = wk_revenue week\<rparr>)
                 (sortedWeeks getTime campaigns)\<rparr>)"

definition all_weeks :: "Campaign list \<Rightarrow> WeeklyPerformance list" where
  "all_weeks campaigns = concat (map weekly_performance campaigns)"

text \<open>
  A week record is well formed for the chart when splitting its composite key at
  \<open>'' to ''\<close> gives back its week start (as it does for every start without a blank)
  and the parser accepts the week start.
\<close>

fun is_num :: "jsnum \<Rightarrow> bool" where
  "is_num (Num a) = True"
| "is_num _ = False"

definition valid_start :: "(string \<Rightarrow> jsnum) \<Rightarrow> WeeklyPerformance \<Rightarrow> bool" where
  "valid_start getTime week =
     (week_start_of (weekKey week) = week_start week \<and> is_num (getTime (week_start week)))"

text \<open>
  The time stamp of a date-only ISO string \<open>YYYY-MM-DD\<close>, which JavaScript reads as
  midnight UTC of that day: the days since 1970-01-01 times the milliseconds of a day.
  Every other string is rejected here.
\<close>

definition leap_year :: "nat \<Rightarrow> bool" where
  "leap_year y = (y mod 4 = 0 \<and> (y mod 100 \<noteq> 0 \<or> y mod 400 = 0))"

definition days_in_month :: "nat \<Rightarrow> nat \<Rightarrow> nat" where
  "days_in_month y m =
     (if m = 2 then (if leap_year y then 29 else 28)
      else if m = 4 \<or> m = 6 \<or> m = 9 \<or> m = 11 then 30 else 31)"

definition days_from_civil :: "nat \<Rightarrow> nat \<Rightarrow> nat \<Rightarrow> int" where
  "days_from_civil y m d =
     (let y' = (if m \<le> 2 then int y - 1 else int y);
          era = y' div 400;
          yoe = y' - era * 400;
          mp = (if m > 2 then int m - 3 else int m + 9);
          doy = (153 * mp + 2) div 5 + int d - 1;
          doe = yoe * 365 + yoe div 4 - yoe div 100 + doy
      in era * 146097 + doe - 719468)"

definition iso_date_ms :: "string \<Rightarrow> jsnum" where
  "iso_date_ms s =
     (if length s = 10 \<and> s ! 4 = CHR ''-'' \<and> s ! 7 = CHR ''-'' then
        (case (nat_of_digits 0 (take 4 s), nat_of_digits 0 (take 2 (drop 5 s)),
               nat_of_digits 0 (drop 8 s)) of
           (Some y, Some m, Some d) \<Rightarrow>
             if 1 \<le> m \<and> m \<le> 12 \<and> 1 \<le> d \<and> d \<le> days_in_month y m
             then Num (real_of_int (days_from_civil y m d * 86400000))
             else NaN
         | _ \<Rightarrow> NaN)
      else NaN)"

definition week_record :: "string \<Rightarrow> string \<Rightarrow> real \<Rightarrow> real \<Rightarrow> WeeklyPerformance" where
  "week_record ws we sp rv = \<lparr>week_start = ws, week_end = we, w_spend = sp, w_revenue = rv\<rparr>"

definition weekly_campaign :: "WeeklyPerformance list \<Rightarrow> Campaign" where
  "weekly_campaign weeks =
     \<lparr>spend = 0, revenue = 0, demographic_breakdown = [], device_performance = [],
      regional_performance = [], weekly_performance = weeks\<rparr>"

section \<open>Properties\<close>

text \<open>
  C3. The click-through rate is \<open>clicks / impressions * 100\<close> when there are
  impressions and \<open>0\<close> otherwise, the conversion rate is
  \<open>conversions / clicks * 100\<close> when there are clicks and \<open>0\<close> otherwise.
  Both always return a finite number, never \<open>NaN\<close>; the four sample values of the
  specification are as stated.
\<close>

theorem C3_rates_total:
  "ctr c i = Num (if i > 0 then c / i * 100 else 0) \<and>
   conversionRate v c = Num (if c > 0 then v / c * 100 else 0) \<and>
   ctr c i \<noteq> NaN \<and> conversionRate v c \<noteq> NaN \<and>
   ctr 0 0 = Num 0 \<and> ctr 50 100 = Num 50 \<and>
   conversionRate 0 0 = Num 0 \<and> conversionRate 10 20 = Num 50"
  by (simp add: ctr_def conversionRate_def)

subsection \<open>Loops over the device records\<close>

lemma foldl_concat: "foldl (\<lambda>a c. foldl f a (g c)) a cs = foldl f a (concat (map g cs))"
  by (induction cs arbitrary: a) auto

lemma device_fold_None:
  "map_of (foldl device_step m ds) k = None \<longleftrightarrow>
     (map_of m k = None \<and> filter (\<lambda>dv. toLowerCase (device dv) = k) ds = [])"
  by (induction ds arbitrary: m)
     (auto simp: device_step_def Let_def AList.update_conv' split: option.splits)

lemma device_fold_entry:
  "map_of (foldl device_step m ds) k = Some e \<Longrightarrow>
   ks = filter (\<lambda>dv. toLowerCase (device dv) = k) ds \<Longrightarrow>
     d_impressions e = (case map_of m k of None \<Rightarrow> 0 | Some e0 \<Rightarrow> d_impressions e0)
        + sum_list (map d_impressions ks) \<and>
     d_clicks e = (case map_of m k of None \<Rightarrow> 0 | Some e0 \<Rightarrow> d_clicks e0)
        + sum_list (map d_clicks ks) \<and>
     d_conversions e = (case map_of m k of None \<Rightarrow> 0 | Some e0 \<Rightarrow> d_conversions e0)
        + sum_list (map d_conversions ks) \<and>
     d_spend e = (case map_of m k of None \<Rightarrow> 0 | Some e0 \<Rightarrow> d_spend e0)
        + sum_list (map d_spend ks) \<and>
     d_revenue e = (case map_of m k of None \<Rightarrow> 0 | Some e0 \<Rightarrow> d_revenue e0)
        + sum_list (map d_revenue ks) \<and>
     percentage_of_traffic e =
        (if ks = [] then (case map_of m k of None \<Rightarrow> 0 | Some e0 \<Rightarrow> percentage_of_traffic e0)
         else percentage_of_traffic (last ks))"
proof (induction ds arbitrary: m ks)
  case Nil then show ?case by simp
next
  case (Cons dv ds)
  from Cons.prems have "map_of (foldl device_step (device_step m dv) ds) k = Some e" by simp
  from Cons.IH[OF this refl] Cons.prems(2) show ?case
    by (auto simp: device_step_def Let_def AList.update_conv' split: option.splits)
qed

lemma device_loop_flat:
  "device_loop cs = foldl device_step [] (concat (map device_performance cs))"
  by (simp add: device_loop_def foldl_concat)

lemma deviceMap_of_lookup:
  "map_of (deviceMap_of cs) k = map_option device_rates (map_of (device_loop cs) k)"
  by (simp add: deviceMap_of_def map_of_map)

lemma device_loop_None:
  "devices_with k cs = [] \<Longrightarrow> map_of (deviceMap_of cs) k = None"
  by (simp add: deviceMap_of_lookup device_loop_flat device_fold_None devices_with_def)

lemma device_loop_Some:
  assumes "devices_with k cs \<noteq> []"
  shows "\<exists>e. map_of (deviceMap_of cs) k = Some e \<and>
     d_impressions e = sum_list (map d_impressions (devices_with k cs)) \<and>
     d_clicks e = sum_list (map d_clicks (devices_with k cs)) \<and>
     d_conversions e = sum_list (map d_conversions (devices_with k cs)) \<and>
     d_spend e = sum_list (map d_spend (devices_with k cs)) \<and>
     d_revenue e = sum_list (map d_revenue (devices_with k cs)) \<and>
     percentage_of_traffic e = percentage_of_traffic (last (devices_with k cs)) \<and>
     d_ctr e = ctr (d_clicks e) (d_impressions e) \<and>
     d_conversion_rate e = conversionRate (d_conversions e) (d_clicks e)"
proof -
  from assms have "map_of (device_loop cs) k \<noteq> None"
    by (simp add: device_loop_flat device_fold_None devices_with_def)
  then obtain e0 where e0: "map_of (device_loop cs) k = Some e0" by auto
  from device_fold_entry[OF e0[unfolded device_loop_flat] refl] assms
  have "d_impressions e0 = sum_list (map d_impressions (devices_with k cs))"
       "d_clicks e0 = sum_list (map d_clicks (devices_with k cs))"
       "d_conversions e0 = sum_list (map d_conversions (devices_with k cs))"
       "d_spend e0 = sum_list (map d_spend (devices_with k cs))"
       "d_revenue e0 = sum_list (map d_revenue (devices_with k cs))"
       "percentage_of_traffic e0 = percentage_of_traffic (last (devices_with k cs))"
    by (simp_all add: devices_with_def)
  then show ?thesis
    by (intro exI[of _ "device_rates e0"]) (simp add: deviceMap_of_lookup e0 device_rates_def)
qed

subsection \<open>Device aggregation\<close>

lemma lower_Mobile: "toLowerCase ''Mobile'' = ''mobile''"
  by (simp add: toLowerCase_def lower_char_def)

lemma device_example:
  "\<exists>m e. deviceMetrics (Some [mobile_campaign 100 10 60, mobile_campaign 200 20 40]) = Some m \<and>
      mobile m = Some e \<and> d_impressions e = 300 \<and> d_clicks e = 30 \<and> d_ctr e = Num 10"
  by (simp add: deviceMetrics_def deviceMap_of_def device_loop_def device_step_def
      mobile_campaign_def mobile_record_def lower_Mobile device_rates_def ctr_def)

text \<open>
  C4. The device aggregation groups the device records of all campaigns by the lower-cased
  label: a key that no record carries has no entry, and the entry of any other key holds
  the sums of impressions, clicks, conversions, spend and revenue over all records of the
  key, with both rates recomputed from the summed counters. Two campaigns reporting
  \<open>Mobile\<close> with impressions 100 and 200 and clicks 10 and 20 give impressions 300,
  clicks 30 and a click-through rate of 10.
\<close>

theorem C4_device_sums:
  "(\<exists>m. deviceMetrics (Some cs) = Some m \<and>
        mobile m = map_of (deviceMap_of cs) ''mobile'' \<and>
        desktop m = map_of (deviceMap_of cs) ''desktop'') \<and>
   (devices_with k cs = [] \<longrightarrow> map_of (deviceMap_of cs) k = None) \<and>
   (devices_with k cs \<noteq> [] \<longrightarrow>
      (\<exists>e. map_of (deviceMap_of cs) k = Some e \<and>
         d_impressions e = sum_list (map d_impressions (devices_with k cs)) \<and>
         d_clicks e = sum_list (map d_clicks (devices_with k cs)) \<and>
         d_conversions e = sum_list (map d_conversions (devices_with k cs)) \<and>
         d_spend e = sum_list (map d_spend (devices_with k cs)) \<and>
         d_revenue e = sum_list (map d_revenue (devices_with k cs)) \<and>
         d_ctr e = ctr (sum_list (map d_clicks (devices_with k cs)))
                       (sum_list (map d_impressions (devices_with k cs))) \<and>
         d_conversion_rate e =
           conversionRate (sum_list (map d_conversions (devices_with k cs)))
                          (sum_list (map d_clicks (devices_with k cs))))) \<and>
   (\<exists>m e. deviceMetrics (Some [mobile_campaign 100 10 60, mobile_campaign 200 20 40]) = Some m \<and>
      mobile m = Some e \<and> d_impressions e = 300 \<and> d_clicks e = 30 \<and> d_ctr e = Num 10)"
proof (intro conjI impI)
  show "\<exists>m. deviceMetrics (Some cs) = Some m \<and>
        mobile m = map_of (deviceMap_of cs) ''mobile'' \<and>
        desktop m = map_of (deviceMap_of cs) ''desktop''"
    by (simp add: deviceMetrics_def)
next
  assume "devices_with k cs = []"
  then show "map_of (deviceMap_of cs) k = None" by (rule device_loop_None)
next
  assume "devices_with k cs \<noteq> []"
  from device_loop_Some[OF this] obtain e where e: "map_of (deviceMap_of cs) k = Some e"
     "d_impressions e = sum_list (map d_impressions (devices_with k cs))"
     "d_clicks e = sum_list (map d_clicks (devices_with k cs))"
     "d_conversions e = sum_list (map d_conversions (devices_with k cs))"
     "d_spend e = sum_list (map d_spend (devices_with k cs))"
     "d_revenue e = sum_list (map d_revenue (devices_with k cs))"
     "d_ctr e = ctr (d_clicks e) (d_impressions e)"
     "d_conversion_rate e = conversionRate (d_conversions e) (d_clicks e)"
    by blast
  show "\<exists>e. map_of (deviceMap_of cs) k = Some e \<and>
         d_impressions e = sum_list (map d_impressions (devices_with k cs)) \<and>
         d_clicks e = sum_list (map d_clicks (devices_with k cs)) \<and>
         d_conversions e = sum_list (map d_conversions (devices_with k cs)) \<and>
         d_spend e = sum_list (map d_spend (devices_with k cs)) \<and>
         d_revenue e = sum_list (map d_revenue (devices_with k cs)) \<and>
         d_ctr e = ctr (sum_list (map d_clicks (devices_with k cs)))
                       (sum_list (map d_impressions (devices_with k cs))) \<and>
         d_conversion_rate e =
           conversionRate (sum_list (map d_conversions (devices_with k cs)))
                          (sum_list (map d_clicks (devices_with k cs)))"
    using e by (intro exI[of _ e]) simp
next
  show "\<exists>m e. deviceMetrics (Some [mobile_campaign 100 10 60, mobile_campaign 200 20 40]) = Some m \<and>
      mobile m = Some e \<and> d_impressions e = 300 \<and> d_clicks e = 30 \<and> d_ctr e = Num 10"
    by (rule device_example)
qed

theorem C4_device_sums_witness:
  "devices_with ''mobile'' [mobile_campaign 100 10 60, mobile_campaign 300 60 40] \<noteq> [] \<and>
   (\<exists>e. map_of (deviceMap_of [mobile_campaign 100 10 60, mobile_campaign 300 60 40]) ''mobile'' = Some e \<and>
        d_impressions e = 400 \<and> d_clicks e = 70 \<and> d_ctr e = Num (35 / 2))"
proof -
  have dw: "devices_with ''mobile'' [mobile_campaign 100 10 60, mobile_campaign 300 60 40] =
      [mobile_record 100 10 60, mobile_record 300 60 40]"
    by (simp add: devices_with_def mobile_campaign_def mobile_record_def lower_Mobile)
  show ?thesis
    using C4_device_sums[of "[mobile_campaign 100 10 60, mobile_campaign 300 60 40]" "''mobile''"]
    unfolding dw by (auto simp: mobile_record_def ctr_def)
qed

text \<open>
  C5. In the entry of a device key, \<open>percentage_of_traffic\<close> is the value of the last
  record of that key in iteration order (campaigns in order, and within a campaign its
  device records in order), while the five counters of the same entry are sums.
\<close>

theorem C5_traffic_share_last_wins:
  "devices_with k cs \<noteq> [] \<Longrightarrow>
     (\<exists>m. deviceMetrics (Some cs) = Some m \<and>
        mobile m = map_of (deviceMap_of cs) ''mobile'' \<and>
        desktop m = map_of (deviceMap_of cs) ''desktop'') \<and>
     (\<exists>e. map_of (deviceMap_of cs) k = Some e \<and>
         percentage_of_traffic e = percentage_of_traffic (last (devices_with k cs)) \<and>
         d_impressions e = sum_list (map d_impressions (devices_with k cs)) \<and>
         d_clicks e = sum_list (map d_clicks (devices_with k cs)) \<and>
         d_conversions e = sum_list (map d_conversions (devices_with k cs)) \<and>
         d_spend e = sum_list (map d_spend (devices_with k cs)) \<and>
         d_revenue e = sum_list (map d_revenue (devices_with k cs)))"
proof -
  assume "devices_with k cs \<noteq> []"
  from device_loop_Some[OF this] show ?thesis by (simp add: deviceMetrics_def) blast
qed

theorem C5_traffic_share_last_wins_witness:
  "devices_with ''mobile'' [mobile_campaign 100 10 60, mobile_campaign 300 60 30] \<noteq> [] \<and>
   (\<exists>e. mobile (the (deviceMetrics (Some [mobile_campaign 100 10 60, mobile_campaign 300 60 30]))) = Some e \<and>
        percentage_of_traffic e = 30 \<and> d_impressions e = 400 \<and> d_clicks e = 70)"
proof -
  have dw: "devices_with ''mobile'' [mobile_campaign 100 10 60, mobile_campaign 300 60 30] =
      [mobile_record 100 10 60, mobile_record 300 60 30]"
    by (simp add: devices_with_def mobile_campaign_def mobile_record_def lower_Mobile)
  have ne: "devices_with ''mobile'' [mobile_campaign 100 10 60, mobile_campaign 300 60 30] \<noteq> []"
    unfolding dw by simp
  show ?thesis
    using C5_traffic_share_last_wins[OF ne] ne
    unfolding dw by (auto simp: mobile_record_def deviceMetrics_def)
qed

subsection \<open>Sorting and summing\<close>

lemma set_js_insort: "set (js_insort cmp x ys) = insert x (set ys)"
  by (induction ys) auto

lemma set_js_sort: "set (js_sort cmp xs) = set xs"
  by (induction xs) (auto simp: js_sort_def set_js_insort)



lemma distinct_js_insort:
  "distinct (map f (js_insort cmp x ys)) \<longleftrightarrow> f x \<notin> f ` set ys \<and> distinct (map f ys)"
  by (induction ys) (auto simp: set_js_insort)

lemma distinct_js_sort: "distinct (map f (js_sort cmp xs)) \<longleftrightarrow> distinct (map f xs)"
  by (induction xs) (auto simp: js_sort_def distinct_js_insort set_js_sort[unfolded js_sort_def])



subsection \<open>Dictionary updates\<close>






subsection \<open>The demographic loop\<close>




















subsection \<open>Proportional allocation\<close>












subsection \<open>Records of neither gender\<close>








subsection \<open>Coordinates\<close>

lemma map_enumerate_snd: "map (\<lambda>x. f (snd x)) (enumerate n xs) = map f xs"
  by (induction xs arbitrary: n) simp_all

lemma coords_of_fallback:
  "r \<notin> fst ` set uaeCoordinates \<Longrightarrow> r \<notin> set object_prototype_names \<Longrightarrow>
     coords_of r = Entry \<lparr>lat = 24, lng = 54\<rparr>"
  by (simp add: coords_of_def js_get_def map_of_eq_None_iff[THEN iffD2])

lemma loadLeaflet_centers:
  "map (\<lambda>c. (c_region c, c_center c)) (loadLeaflet data) =
     map (\<lambda>d. (p_region (snd d),
                 coords_lat (coords_of (p_region (snd d))),
                 coords_lng (coords_of (p_region (snd d))))) data"
proof (cases "data = []")
  case True
  then show ?thesis by (simp add: loadLeaflet_def)
next
  case False
  then show ?thesis
    by (simp add: loadLeaflet_def Let_def case_prod_unfold comp_def
        map_enumerate_snd[of "\<lambda>d. (p_region (snd d),
                 coords_lat (coords_of (p_region (snd d))),
                 coords_lng (coords_of (p_region (snd d))))"])
qed

lemma object_entries_order:
  "object_entries [(''Dubai'', a), (''10'', b), (''2'', c), (''007'', d)] =
     [(''2'', c), (''10'', b), (''Dubai'', a), (''007'', d)]"
  by (simp add: object_entries_def array_index_def digit_of_def)

lemma inherited_names_not_in_table:
  "list_all (\<lambda>r. map_of uaeCoordinates r = None) object_prototype_names"
  by (simp add: object_prototype_names_def uaeCoordinates_def)

lemma coords_of_inherited:
  assumes "r \<in> set object_prototype_names"
  shows "r \<notin> fst ` set uaeCoordinates" and "coords_of r = Member"
proof -
  from assms inherited_names_not_in_table have none: "map_of uaeCoordinates r = None"
    by (simp add: list_all_iff)
  then show "r \<notin> fst ` set uaeCoordinates" by (simp add: map_of_eq_None_iff)
  from none assms show "coords_of r = Member" by (simp add: coords_of_def js_get_def)
qed

text \<open>The regional rollup never holds a key that names an inherited member.\<close>

lemma region_step_keys:
  "fst ` set (region_step m rp) =
     (if map_of m (region rp) = None \<and> region rp \<in> set object_prototype_names then fst ` set m
      else insert (region rp) (fst ` set m))"
  by (simp add: region_step_def js_get_def AList.dom_update split: option.splits)

lemma region_fold_no_inherited:
  assumes "fst ` set m \<inter> set object_prototype_names = {}"
  shows "fst ` set (foldl region_step m rs) \<inter> set object_prototype_names = {}"
  using assms
proof (induction rs arbitrary: m)
  case Nil
  then show ?case by simp
next
  case (Cons rp rs)
  have "fst ` set (region_step m rp) \<inter> set object_prototype_names = {}"
  proof (cases "region rp \<in> set object_prototype_names")
    case True
    with Cons.prems have "region rp \<notin> fst ` set m" by blast
    then have "map_of m (region rp) = None" by (simp add: map_of_eq_None_iff)
    with True Cons.prems show ?thesis by (simp add: region_step_keys)
  next
    case False
    with Cons.prems show ?thesis by (simp add: region_step_keys)
  qed
  then show ?case using Cons.IH by simp
qed

lemma region_loop_no_inherited:
  "fst ` set (region_loop cs) \<inter> set object_prototype_names = {}"
  unfolding region_loop_def foldl_concat
  by (rule region_fold_no_inherited) simp

text \<open>
  C9. The fallback coordinate (24.0, 54.0) is taken only when the lookup in the table is
  \<open>undefined\<close>. A region label that names a member inherited from \<open>Object.prototype\<close>
  is not a key of the table, yet its lookup is that member: the fallback is skipped and
  the centre of the circle is \<open>[undefined, undefined]\<close>. In the region view a record
  with such a label creates no entry of the region map, so the region gets no point at
  all, while a label unknown to the table (\<open>Atlantis\<close>) gets its point at the fallback.
\<close>

theorem C9_inherited_label_skips_fallback:
  "list_all (\<lambda>r. r \<notin> fst ` set uaeCoordinates \<and> coords_of r = Member \<and>
                coords_of r \<noteq> Entry \<lparr>lat = 24, lng = 54\<rparr>) object_prototype_names \<and>
   ''constructor'' \<notin> fst ` set uaeCoordinates \<and>
   map c_center (loadLeaflet [(0, heat_example 7 ''constructor'')]) = [(None, None)] \<and>
   map c_center (loadLeaflet [(0, heat_example 7 ''Atlantis'')]) = [(Some 24, Some 54)] \<and>
   (\<exists>out. regionalData (Some [region_campaign [region_record ''Dubai'' 40 100,
                                                 region_record ''constructor'' 10 20,
                                                 region_record ''Atlantis'' 5 8]]) = Some out \<and>
      map (\<lambda>p. (p_region p, p_value p, p_lat p, p_lng p)) (revenueData out) =
        [(''Dubai'', 100, Some 25.2048, Some 55.2708), (''Atlantis'', 8, Some 24, Some 54)] \<and>
      map (\<lambda>p. (p_region p, p_value p, p_lat p, p_lng p)) (spendData out) =
        [(''Dubai'', 40, Some 25.2048, Some 55.2708), (''Atlantis'', 5, Some 24, Some 54)])"
proof (intro conjI)
  show "list_all (\<lambda>r. r \<notin> fst ` set uaeCoordinates \<and> coords_of r = Member \<and>
                coords_of r \<noteq> Entry \<lparr>lat = 24, lng = 54\<rparr>) object_prototype_names"
    by (simp add: list_all_iff coords_of_inherited)
  have c: "''constructor'' \<in> set object_prototype_names"
    by (simp add: object_prototype_names_def)
  show "''constructor'' \<notin> fst ` set uaeCoordinates"
    using c by (rule coords_of_inherited)
  have cm: "coords_of ''constructor'' = Member" using c by (rule coords_of_inherited)
  show "map c_center (loadLeaflet [(0, heat_example 7 ''constructor'')]) = [(None, None)]"
    by (simp add: loadLeaflet_def heat_example_def Let_def cm)
  have a: "coords_of ''Atlantis'' = Entry \<lparr>lat = 24, lng = 54\<rparr>"
    by (rule coords_of_fallback) (simp_all add: uaeCoordinates_def object_prototype_names_def)
  have d: "coords_of ''Dubai'' = Entry \<lparr>lat = 25.2048, lng = 55.2708\<rparr>"
    by (simp add: coords_of_def js_get_def uaeCoordinates_def)
  show "map c_center (loadLeaflet [(0, heat_example 7 ''Atlantis'')]) = [(Some 24, Some 54)]"
    by (simp add: loadLeaflet_def heat_example_def Let_def a)
  have loop: "region_loop [region_campaign [region_record ''Dubai'' 40 100,
                                            region_record ''constructor'' 10 20,
                                            region_record ''Atlantis'' 5 8]] =
      [(''Dubai'', \<lparr>t_spend = 40, t_revenue = 100, t_country = ''UAE''\<rparr>),
       (''Atlantis'', \<lparr>t_spend = 5, t_revenue = 8, t_country = ''UAE''\<rparr>)]"
    by (simp add: region_loop_def region_campaign_def region_record_def region_step_def
        js_get_def object_prototype_names_def)
  have idx: "array_index ''Dubai'' = None" "array_index ''Atlantis'' = None"
    by (simp_all add: array_index_def digit_of_def)
  show "\<exists>out. regionalData (Some [region_campaign [region_record ''Dubai'' 40 100,
                                                 region_record ''constructor'' 10 20,
                                                 region_record ''Atlantis'' 5 8]]) = Some out \<and>
      map (\<lambda>p. (p_region p, p_value p, p_lat p, p_lng p)) (revenueData out) =
        [(''Dubai'', 100, Some 25.2048, Some 55.2708), (''Atlantis'', 8, Some 24, Some 54)] \<and>
      map (\<lambda>p. (p_region p, p_value p, p_lat p, p_lng p)) (spendData out) =
        [(''Dubai'', 40, Some 25.2048, Some 55.2708), (''Atlantis'', 5, Some 24, Some 54)]"
    by (simp add: regionalData_def loop object_entries_def idx heat_point_def Let_def a d)
qed

subsection \<open>Marker radius\<close>

lemma math_max_min_nonempty:
  "vs \<noteq> [] \<Longrightarrow> math_max vs = Num (Max (set vs))"
  "vs \<noteq> [] \<Longrightarrow> math_min vs = Num (Min (set vs))"
proof -
  show "vs \<noteq> [] \<Longrightarrow> math_max vs = Num (Max (set vs))"
    by (cases vs) (simp_all only: math_max.simps Max.set_eq_fold not_False_eq_True simp_thms)
  show "vs \<noteq> [] \<Longrightarrow> math_min vs = Num (Min (set vs))"
    by (cases vs) (simp_all only: math_min.simps Min.set_eq_fold not_False_eq_True simp_thms)
qed

lemma heat_normalized_eq:
  "heat_normalized (Num (Max (set vs))) (Num (Min (set vs))) v = Num (normalized_value vs v)"
  by (simp add: heat_normalized_def normalized_value_def js_sub_def)

lemma loadLeaflet_radius:
  assumes "data \<noteq> []"
  shows "map c_radius (loadLeaflet data) =
           map (\<lambda>d. Num (marker_radius (heat_values data) (p_value (snd d)))) data"
proof -
  have vs: "heat_values data \<noteq> []" using assms by (simp add: heat_values_def)
  have "map c_radius (loadLeaflet data) =
        map (\<lambda>x. Num (marker_radius (heat_values data) (p_value (snd (snd x))))) (enumerate 0 data)"
    using assms
    by (simp add: loadLeaflet_def Let_def case_prod_unfold comp_def heat_values_def[symmetric]
        math_max_min_nonempty[OF vs] heat_normalized_eq marker_radius_def)
  also have "\<dots> = map (\<lambda>d. Num (marker_radius (heat_values data) (p_value (snd d)))) data"
    by (rule map_enumerate_snd[of "\<lambda>d. Num (marker_radius (heat_values data) (p_value (snd d)))"])
  finally show ?thesis .
qed

lemma normalized_value_mono:
  assumes "vs \<noteq> []" "v \<le> w"
  shows "normalized_value vs v \<le> normalized_value vs w"
proof (cases "Max (set vs) = Min (set vs)")
  case True
  then show ?thesis by (simp add: normalized_value_def)
next
  case False
  have "Min (set vs) \<le> Max (set vs)" using assms(1) by (simp add: Min_le_iff)
  with False have "0 < Max (set vs) - Min (set vs)" by simp
  with assms(2) show ?thesis
    by (simp add: normalized_value_def False divide_right_mono)
qed

lemma normalized_value_ends:
  assumes "Max (set vs) \<noteq> Min (set vs)"
  shows "normalized_value vs (Max (set vs)) = 1" "normalized_value vs (Min (set vs)) = 0"
  using assms by (simp_all add: normalized_value_def)

lemma HeatMap_circles: "v_circles (HeatMap data) = loadLeaflet (v_data (HeatMap data))"
  by (simp add: HeatMap_def Let_def case_prod_unfold)

text \<open>
  C8. For a non-empty point set the radius of each circle is \<open>10000 + t * 150000\<close>,
  where \<open>t\<close> is \<open>(value - min) / (max - min)\<close> when the values differ and
  \<open>0.5\<close> when they are all equal. The radius grows with the value, so the largest
  value gets the largest radius (160000) and the smallest the smallest (10000); when all
  values are equal every radius is 85000.
\<close>

theorem C8_marker_radius:
  "data \<noteq> [] \<Longrightarrow>
     map c_radius (loadLeaflet data) =
       map (\<lambda>d. Num (marker_radius (heat_values data) (p_value (snd d)))) data \<and>
     marker_radius (heat_values data) v =
       10000 + (if Max (set (heat_values data)) = Min (set (heat_values data)) then 1 / 2
                else (v - Min (set (heat_values data))) /
                     (Max (set (heat_values data)) - Min (set (heat_values data)))) * 150000 \<and>
     (v \<le> w \<longrightarrow> marker_radius (heat_values data) v \<le> marker_radius (heat_values data) w) \<and>
     (Max (set (heat_values data)) \<noteq> Min (set (heat_values data)) \<longrightarrow>
        marker_radius (heat_values data) (Max (set (heat_values data))) = 160000 \<and>
        marker_radius (heat_values data) (Min (set (heat_values data))) = 10000) \<and>
     (Max (set (heat_values data)) = Min (set (heat_values data)) \<longrightarrow>
        map c_radius (loadLeaflet data) = replicate (length data) (Num 85000)) \<and>
     v_circles (HeatMap data) = loadLeaflet (v_data (HeatMap data))"
proof -
  assume ne: "data \<noteq> []"
  then have vs: "heat_values data \<noteq> []" by (simp add: heat_values_def)
  have radii: "map c_radius (loadLeaflet data) =
       map (\<lambda>d. Num (marker_radius (heat_values data) (p_value (snd d)))) data"
    using ne by (rule loadLeaflet_radius)
  have def: "marker_radius (heat_values data) v =
       10000 + (if Max (set (heat_values data)) = Min (set (heat_values data)) then 1 / 2
                else (v - Min (set (heat_values data))) /
                     (Max (set (heat_values data)) - Min (set (heat_values data)))) * 150000"
    by (simp add: marker_radius_def normalized_value_def)
  have mono: "marker_radius (heat_values data) v \<le> marker_radius (heat_values data) w"
    if "v \<le> w"
    using normalized_value_mono[OF vs that] by (simp add: marker_radius_def)
  have ends: "marker_radius (heat_values data) (Max (set (heat_values data))) = 160000 \<and>
        marker_radius (heat_values data) (Min (set (heat_values data))) = 10000"
    if "Max (set (heat_values data)) \<noteq> Min (set (heat_values data))"
    using normalized_value_ends[OF that] by (simp add: marker_radius_def)
  have equal: "map c_radius (loadLeaflet data) = replicate (length data) (Num 85000)"
    if "Max (set (heat_values data)) = Min (set (heat_values data))"
    unfolding radii using that
    by (simp add: marker_radius_def normalized_value_def map_replicate_const)
  show ?thesis
    apply (intro conjI impI)
    subgoal by (rule radii)
    subgoal by (rule def)
    subgoal by (rule mono)
    subgoal by (rule conjunct1[OF ends])
    subgoal by (rule conjunct2[OF ends])
    subgoal by (rule equal)
    subgoal by (rule HeatMap_circles)
    done
qed

theorem C8_marker_radius_witness:
  "[(0, heat_example 10 ''Dubai''), (1, heat_example 50 ''Sharjah''),
    (2, heat_example 100 ''Ajman'')] \<noteq> [] \<and>
   map c_radius (loadLeaflet [(0, heat_example 10 ''Dubai''), (1, heat_example 50 ''Sharjah''),
    (2, heat_example 100 ''Ajman'')]) = [Num 10000, Num (230000 / 3), Num 160000] \<and>
   map c_radius (loadLeaflet [(0, heat_example 50 ''Dubai''), (1, heat_example 50 ''Sharjah'')]) =
     [Num 85000, Num 85000]"
proof -
  let ?d = "[(0::nat, heat_example 10 ''Dubai''), (1, heat_example 50 ''Sharjah''),
    (2, heat_example 100 ''Ajman'')]"
  let ?e = "[(0::nat, heat_example 50 ''Dubai''), (1, heat_example 50 ''Sharjah'')]"
  have d: "?d \<noteq> []" and e: "?e \<noteq> []" by simp_all
  have vd: "heat_values ?d = [10, 50, 100]" and ve: "heat_values ?e = [50, 50]"
    by (simp_all add: heat_values_def heat_example_def)
  have rd: "map c_radius (loadLeaflet ?d) =
      map (\<lambda>x. Num (marker_radius (heat_values ?d) (p_value (snd x)))) ?d"
    by (rule conjunct1[OF C8_marker_radius[OF d, of 0 0]])
  have re: "map c_radius (loadLeaflet ?e) =
      map (\<lambda>x. Num (marker_radius (heat_values ?e) (p_value (snd x)))) ?e"
    by (rule conjunct1[OF C8_marker_radius[OF e, of 0 0]])
  have mr: "marker_radius [10, 50, 100] 10 = 10000" "marker_radius [10, 50, 100] 50 = 230000 / 3"
      "marker_radius [10, 50, 100] 100 = 160000" "marker_radius [50, 50] 50 = 85000"
    by (simp_all add: marker_radius_def normalized_value_def)
  show ?thesis
    unfolding rd re vd ve by (simp add: heat_example_def mr)
qed

subsection \<open>Colours of the table and of the map\<close>

lemma js_sort_Nil_iff: "js_sort cmp xs = [] \<longleftrightarrow> xs = []"
  using set_js_sort[of cmp xs] by (metis set_empty)

lemma heat_render_sorted:
  "fst (heat_render data) =
     js_sort (\<lambda>a b. js_sub (Num (p_value (snd b))) (Num (p_value (snd a)))) data"
  by (simp add: heat_render_def Let_def js_sort_def)

lemma heat_rows_colours:
  "map (\<lambda>r. (row_point r, row_color r)) (snd (heat_render data)) =
     map (\<lambda>(index, point). (fst point, point_color index (snd point)))
       (enumerate 0 (fst (heat_render data)))"
  by (simp add: heat_render_def Let_def case_prod_unfold comp_def)

lemma heat_circles_colours:
  "map (\<lambda>c. (c_point c, c_color c)) (loadLeaflet data) =
     map (\<lambda>(index, point). (fst point, point_color index (snd point))) (enumerate 0 data)"
  by (simp add: loadLeaflet_def Let_def case_prod_unfold comp_def)

lemma HeatMap_parts:
  "v_data (HeatMap data) = fst (heat_render data)"
  "v_rows (HeatMap data) = snd (heat_render data)"
  "v_circles (HeatMap data) = loadLeaflet (fst (heat_render data))"
  by (simp_all add: HeatMap_def Let_def case_prod_unfold)

lemma HeatMap_colours_agree:
  "map (\<lambda>r. (row_point r, row_color r)) (v_rows (HeatMap data)) =
     map (\<lambda>c. (c_point c, c_color c)) (v_circles (HeatMap data))"
  by (simp only: HeatMap_parts heat_rows_colours heat_circles_colours)

lemma map_fst_enumerate_points:
  "map fst (map (\<lambda>(index, point). (fst point, f index point)) (enumerate n xs)) = map fst xs"
  by (induction xs arbitrary: n) simp_all

lemma HeatMap_row_points:
  "map row_point (v_rows (HeatMap data)) = map fst (v_data (HeatMap data))"
proof -
  have "map row_point (v_rows (HeatMap data)) =
        map fst (map (\<lambda>r. (row_point r, row_color r)) (v_rows (HeatMap data)))"
    by (simp add: comp_def)
  also have "\<dots> = map fst (v_data (HeatMap data))"
    unfolding HeatMap_parts heat_rows_colours by (rule map_fst_enumerate_points)
  finally show ?thesis .
qed

lemma HeatMap_distinct_points:
  "distinct (map fst data) \<Longrightarrow> distinct (map fst (v_data (HeatMap data)))"
  by (simp add: HeatMap_parts heat_render_sorted distinct_js_sort)

lemma HeatMap_same_point_same_colour:
  assumes "distinct (map fst data)"
    and "r \<in> set (v_rows (HeatMap data))" and "c \<in> set (v_circles (HeatMap data))"
    and "row_point r = c_point c"
  shows "row_color r = c_color c"
proof -
  let ?L = "map (\<lambda>r. (row_point r, row_color r)) (v_rows (HeatMap data))"
  have d: "distinct (map fst ?L)"
    using HeatMap_distinct_points[OF assms(1)] HeatMap_row_points[of data]
    by (simp add: comp_def)
  have "(row_point r, row_color r) \<in> set ?L" using assms(2) by force
  moreover have "(c_point c, c_color c) \<in> set ?L"
    unfolding HeatMap_colours_agree using assms(3) by force
  ultimately show ?thesis
    using d assms(4) by (metis eq_key_imp_eq_value)
qed

text \<open>
  C10. For every heat-map input the colour of a point's row in the side table is the
  colour of that point's circle on the map. The table sorts the \<open>data\<close> array in
  place, descending by value, while the component renders; the effect that draws the
  circles runs after the render and iterates the same, already sorted array. Rows and
  circles therefore both take the explicit colour of the point, or else cycle the palette
  by the rank of the point in the sorted array.
\<close>

theorem C10_table_and_map_colours_agree:
  "v_data (HeatMap data) =
     js_sort (\<lambda>a b. js_sub (Num (p_value (snd b))) (Num (p_value (snd a)))) data \<and>
   map (\<lambda>r. (row_point r, row_color r)) (v_rows (HeatMap data)) =
     map (\<lambda>(index, point). (fst point, point_color index (snd point)))
       (enumerate 0 (v_data (HeatMap data))) \<and>
   map (\<lambda>c. (c_point c, c_color c)) (v_circles (HeatMap data)) =
     map (\<lambda>(index, point). (fst point, point_color index (snd point)))
       (enumerate 0 (v_data (HeatMap data))) \<and>
   map (\<lambda>r. (row_point r, row_color r)) (v_rows (HeatMap data)) =
     map (\<lambda>c. (c_point c, c_color c)) (v_circles (HeatMap data))"
  by (simp only: HeatMap_parts heat_rows_colours heat_circles_colours heat_render_sorted simp_thms)

lemma HeatMap_two_points:
  "map (\<lambda>r. (row_point r, row_color r))
     (v_rows (HeatMap [(0, heat_example 10 ''Dubai''), (1, heat_example 50 ''Sharjah'')])) =
     [(1, ''#3B82F6''), (0, ''#10B981'')]"
  "map (\<lambda>c. (c_point c, c_color c))
     (v_circles (HeatMap [(0, heat_example 10 ''Dubai''), (1, heat_example 50 ''Sharjah'')])) =
     [(1, ''#3B82F6''), (0, ''#10B981'')]"
  by (simp_all add: HeatMap_def heat_render_def loadLeaflet_def js_sort_def js_sub_def Let_def
      heat_example_def point_color_def colorScale_def)

theorem C10_table_and_map_colours_agree_witness:
  "map (\<lambda>r. (row_point r, row_color r))
     (v_rows (HeatMap [(0, heat_example 10 ''Dubai''), (1, heat_example 50 ''Sharjah'')])) =
     [(1, ''#3B82F6''), (0, ''#10B981'')] \<and>
   map (\<lambda>c. (c_point c, c_color c))
     (v_circles (HeatMap [(0, heat_example 10 ''Dubai''), (1, heat_example 50 ''Sharjah'')])) =
     [(1, ''#3B82F6''), (0, ''#10B981'')]"
  using C10_table_and_map_colours_agree[of "[(0, heat_example 10 ''Dubai''), (1, heat_example 50 ''Sharjah'')]"]
    HeatMap_two_points(1)
  by simp

text \<open>
  That some input shows a point in one colour in the table and in another on the map does
  not hold: no input, with or without explicit colours and in whatever order, has a point
  whose row colour differs from the colour of its circle. For the two
  points with values 10 and 50, given in that order, the circle of the first point is
  drawn in the second palette colour, the colour of its rank, not in the first.
\<close>

theorem C10_colours_never_differ:
  "\<not> (\<exists>data. distinct (map fst data) \<and>
          list_all (\<lambda>d. p_color (snd d) = None) data \<and>
          \<not> sorted_wrt (\<lambda>a b. p_value (snd a) \<ge> p_value (snd b)) data \<and>
          (\<exists>r \<in> set (v_rows (HeatMap data)). \<exists>c \<in> set (v_circles (HeatMap data)).
              row_point r = c_point c \<and> row_color r \<noteq> c_color c)) \<and>
   \<not> sorted_wrt (\<lambda>a b. p_value (snd a) \<ge> p_value (snd b))
         [(0::nat, heat_example 10 ''Dubai''), (1, heat_example 50 ''Sharjah'')] \<and>
   map (\<lambda>c. (c_point c, c_color c))
     (v_circles (HeatMap [(0, heat_example 10 ''Dubai''), (1, heat_example 50 ''Sharjah'')])) =
     [(1, ''#3B82F6''), (0, ''#10B981'')] \<and>
   map (\<lambda>r. (row_point r, row_color r))
     (v_rows (HeatMap [(0, heat_example 10 ''Dubai''), (1, heat_example 50 ''Sharjah'')])) =
     [(1, ''#3B82F6''), (0, ''#10B981'')]"
proof (intro conjI)
  show "\<not> (\<exists>data. distinct (map fst data) \<and>
          list_all (\<lambda>d. p_color (snd d) = None) data \<and>
          \<not> sorted_wrt (\<lambda>a b. p_value (snd a) \<ge> p_value (snd b)) data \<and>
          (\<exists>r \<in> set (v_rows (HeatMap data)). \<exists>c \<in> set (v_circles (HeatMap data)).
              row_point r = c_point c \<and> row_color r \<noteq> c_color c))"
    using HeatMap_same_point_same_colour by blast
  show "\<not> sorted_wrt (\<lambda>a b. p_value (snd a) \<ge> p_value (snd b))
         [(0::nat, heat_example 10 ''Dubai''), (1, heat_example 50 ''Sharjah'')]"
    by (simp add: heat_example_def)
qed (rule HeatMap_two_points)+

subsection \<open>The x coordinate of a chart with one label\<close>

text \<open>
  C2. With exactly one label the x coordinate is computed as
  \<open>padding + (0 / 0) * (chartWidth - 2 * padding)\<close>: the division is by zero and the
  coordinate is \<open>NaN\<close>, not the left padding edge \<open>80\<close>. The y coordinate of the same
  point is finite.
\<close>

theorem C2_single_label_x_is_NaN:
  "length (allLabels series) = 1 \<Longrightarrow>
     pos_x (getPointPosition series height 0 v) = NaN \<and>
     pos_x (getPointPosition series height 0 v) \<noteq> Num padding"
  by (simp add: getPointPosition_def inf_of_sign_def)

theorem C2_single_label_x_is_NaN_witness:
  "length (allLabels single_point_series) = 1 \<and>
   LineChart single_point_series 300 =
     Some \<lparr>axis_labels = [(''2024-01-01'', NaN)],
           points = [[\<lparr>pos_x = NaN, pos_y = Num 80\<rparr>]]\<rparr>"
proof -
  have l: "allLabels single_point_series = [''2024-01-01'']"
    by (simp add: allLabels_def single_point_series_def js_uniq_def)
  have x: "pos_x (getPointPosition single_point_series 300 0 5) = NaN"
    using C2_single_label_x_is_NaN[of single_point_series 300 5] l by simp
  have y: "pos_y (getPointPosition single_point_series 300 0 5) = Num 80"
    by (simp add: getPointPosition_def maxValue_def yAxisRange_def yAxisMin_def minValue_def
        allValues_def single_point_series_def js_sub_def js_or_def padding_def chartHeight_def)
  have p: "getPointPosition single_point_series 300 0 5 = \<lparr>pos_x = NaN, pos_y = Num 80\<rparr>"
    using x y by (cases "getPointPosition single_point_series 300 0 5") simp
  have pts: "map (series_points single_point_series 300) single_point_series =
      [[\<lparr>pos_x = NaN, pos_y = Num 80\<rparr>]]"
  proof -
    have "map (series_points single_point_series 300) single_point_series =
          [[getPointPosition single_point_series 300 0 5]]"
      unfolding series_points_def l
      by (simp add: single_point_series_def List.map_filter_simps)
    then show ?thesis by (simp only: p)
  qed
  have ne: "single_point_series \<noteq> []" "\<not> list_all (\<lambda>s. s_data s = []) single_point_series"
    by (simp_all add: single_point_series_def)
  have ax: "map (\<lambda>(index, l).
                  (l, js_add (Num padding)
                        (js_mul (js_div (Num (real index))
                                   (Num (real (length (allLabels single_point_series)) - 1)))
                           (Num (chartWidth - 2 * padding)))))
             (enumerate 0 (allLabels single_point_series)) = [(''2024-01-01'', NaN)]"
    by (simp add: l inf_of_sign_def)
  show ?thesis
    unfolding LineChart_def pts ax using ne l by simp
qed

subsection \<open>Sorting by a numeric key\<close>

lemma js_pos_sub: "is_num a \<Longrightarrow> is_num b \<Longrightarrow> js_pos (js_sub a b) = (\<not> js_le a b)"
  by (cases a; cases b) (auto simp: js_sub_def)

lemma js_le_trans:
  "is_num a \<Longrightarrow> is_num b \<Longrightarrow> is_num c \<Longrightarrow> js_le a b \<Longrightarrow> js_le b c \<Longrightarrow> js_le a c"
  by (cases a; cases b; cases c) auto

lemma js_le_linear: "is_num a \<Longrightarrow> is_num b \<Longrightarrow> \<not> js_le a b \<Longrightarrow> js_le b a"
  by (cases a; cases b) auto

lemma js_insort_sorted:
  assumes "sorted_wrt (\<lambda>a b. js_le (k a) (k b)) ys" and "is_num (k x)"
    and "\<And>y. y \<in> set ys \<Longrightarrow> is_num (k y)"
  shows "sorted_wrt (\<lambda>a b. js_le (k a) (k b)) (js_insort (\<lambda>a b. js_sub (k a) (k b)) x ys)"
  using assms
proof (induction ys)
  case Nil
  then show ?case by simp
next
  case (Cons y ys)
  show ?case
  proof (cases "js_le (k x) (k y)")
    case True
    have "js_le (k x) (k z)" if "z \<in> set ys" for z
      using that True Cons.prems js_le_trans[of "k x" "k y" "k z"] by auto
    with True Cons.prems show ?thesis by (simp add: js_pos_sub)
  next
    case False
    then have "js_le (k y) (k x)" using Cons.prems by (simp add: js_le_linear)
    moreover have "sorted_wrt (\<lambda>a b. js_le (k a) (k b)) (js_insort (\<lambda>a b. js_sub (k a) (k b)) x ys)"
      using Cons by simp
    ultimately show ?thesis using False Cons.prems
      by (auto simp: js_pos_sub set_js_insort)
  qed
qed

lemma js_sort_sorted:
  assumes "\<And>x. x \<in> set xs \<Longrightarrow> is_num (k x)"
  shows "sorted_wrt (\<lambda>a b. js_le (k a) (k b)) (js_sort (\<lambda>a b. js_sub (k a) (k b)) xs)"
  using assms
proof (induction xs)
  case Nil
  then show ?case by (simp add: js_sort_def)
next
  case (Cons x xs)
  have "sorted_wrt (\<lambda>a b. js_le (k a) (k b))
          (js_insort (\<lambda>a b. js_sub (k a) (k b)) x (js_sort (\<lambda>a b. js_sub (k a) (k b)) xs))"
    by (rule js_insort_sorted) (use Cons in \<open>auto simp: set_js_sort\<close>)
  then show ?case by (simp add: js_sort_def)
qed

subsection \<open>Week labels\<close>

lemma before_sep_start:
  "CHR '' '' \<notin> set ws \<Longrightarrow>
     before_sep '' to '' (ws @ CHR '' '' # CHR ''t'' # CHR ''o'' # CHR '' '' # we) = ws"
  by (induction ws) auto

lemma week_start_of_key:
  "CHR '' '' \<notin> set (week_start w) \<Longrightarrow> week_start_of (weekKey w) = week_start w"
  by (simp add: week_start_of_def weekKey_def before_sep_start)

lemma set_alist_update: "set (AList.update k v m) \<subseteq> insert (k, v) (set m)"
  by (induction m) auto

lemma weekly_step_labelled:
  assumes "\<And>p. p \<in> set m \<Longrightarrow> weekLabel (snd p) = fst p"
    and "p \<in> set (weekly_step m w)"
  shows "weekLabel (snd p) = fst p"
proof -
  define e where "e = (case map_of m (weekKey w) of
                 None \<Rightarrow> \<lparr>wk_spend = 0, wk_revenue = 0, weekLabel = weekKey w\<rparr>
               | Some e \<Rightarrow> e)"
  have lab: "weekLabel e = weekKey w"
  proof (cases "map_of m (weekKey w)")
    case None
    then show ?thesis by (simp add: e_def)
  next
    case (Some e')
    then have "(weekKey w, e') \<in> set m" by (rule map_of_SomeD)
    with assms(1) Some show ?thesis by (force simp: e_def)
  qed
  have "weekly_step m w =
      AList.update (weekKey w)
        (e\<lparr>wk_spend := wk_spend e + w_spend w, wk_revenue := wk_revenue e + w_revenue w\<rparr>) m"
    by (simp add: weekly_step_def e_def Let_def)
  with assms(2) set_alist_update
  have "p = (weekKey w, e\<lparr>wk_spend := wk_spend e + w_spend w, wk_revenue := wk_revenue e + w_revenue w\<rparr>)
        \<or> p \<in> set m"
    by fastforce
  then show ?thesis using lab assms(1) by auto
qed

lemma weekly_fold_labelled:
  assumes "\<And>p. p \<in> set m \<Longrightarrow> weekLabel (snd p) = fst p"
    and "p \<in> set (foldl weekly_step m ws)"
  shows "weekLabel (snd p) = fst p"
  using assms
proof (induction ws arbitrary: m)
  case Nil
  then show ?case by simp
next
  case (Cons w ws)
  show ?case
  proof (rule Cons.IH[of "weekly_step m w"])
    show "weekLabel (snd q) = fst q" if "q \<in> set (weekly_step m w)" for q
      using Cons.prems(1) that by (rule weekly_step_labelled)
    show "p \<in> set (foldl weekly_step (weekly_step m w) ws)"
      using Cons.prems(2) by simp
  qed
qed

lemma weekly_fold_keys:
  "fst ` set (foldl weekly_step m ws) = fst ` set m \<union> weekKey ` set ws"
  by (induction ws arbitrary: m) (auto simp: weekly_step_def Let_def AList.dom_update)

lemma weekly_loop_flat:
  "weekly_loop cs = foldl weekly_step [] (all_weeks cs)"
  by (simp add: weekly_loop_def all_weeks_def foldl_concat)

lemma weekly_loop_labels:
  "weekLabel ` snd ` set (weekly_loop cs) = weekKey ` set (all_weeks cs)"
proof -
  have "weekLabel (snd p) = fst p" if "p \<in> set (weekly_loop cs)" for p
    using that unfolding weekly_loop_flat by (rule weekly_fold_labelled[rotated]) simp
  then have "weekLabel ` snd ` set (weekly_loop cs) = fst ` set (weekly_loop cs)"
    by (force simp: image_iff)
  then show ?thesis by (simp add: weekly_loop_flat weekly_fold_keys)
qed

lemma sortedWeeks_starts:
  assumes "list_all (valid_start getTime) (all_weeks cs)"
    and "e \<in> set (map snd (weekly_loop cs))"
  shows "\<exists>w \<in> set (all_weeks cs). week_start_of (weekLabel e) = week_start w \<and>
           is_num (getTime (week_start w))"
proof -
  from assms(2) have "weekLabel e \<in> weekLabel ` snd ` set (weekly_loop cs)" by auto
  then obtain w where w: "w \<in> set (all_weeks cs)" "weekLabel e = weekKey w"
    unfolding weekly_loop_labels by auto
  from assms(1) w(1) have "valid_start getTime w" by (simp add: list_all_iff)
  then show ?thesis
    using w by (auto simp: valid_start_def)
qed

lemma sortedWeeks_sorted:
  assumes "list_all (valid_start getTime) (all_weeks cs)"
  shows "sorted_wrt (\<lambda>a b. js_le (getTime (week_start_of (weekLabel a)))
                             (getTime (week_start_of (weekLabel b))))
           (sortedWeeks getTime cs)"
  unfolding sortedWeeks_def
proof (rule js_sort_sorted)
  fix e assume "e \<in> set (map snd (weekly_loop cs))"
  from sortedWeeks_starts[OF assms this]
  show "is_num (getTime (week_start_of (weekLabel e)))" by auto
qed

lemma sortedWeeks_labels:
  assumes "list_all (valid_start getTime) (all_weeks cs)"
  shows "set (map (\<lambda>e. week_start_of (weekLabel e)) (sortedWeeks getTime cs)) =
           week_start ` set (all_weeks cs)"
proof -
  have "week_start_of (weekKey w) = week_start w" if "w \<in> set (all_weeks cs)" for w
    using assms that by (simp add: list_all_iff valid_start_def)
  then have "week_start_of ` weekKey ` set (all_weeks cs) = week_start ` set (all_weeks cs)"
    by (force simp: image_iff)
  moreover have "set (map (\<lambda>e. week_start_of (weekLabel e)) (sortedWeeks getTime cs)) =
      week_start_of ` weekLabel ` snd ` set (weekly_loop cs)"
    by (simp add: sortedWeeks_def set_js_sort image_image)
  ultimately show ?thesis by (simp only: weekly_loop_labels)
qed

lemma iso_dates_example:
  "iso_date_ms ''2024-01-01'' = Num 1704067200000"
  "iso_date_ms ''2024-01-08'' = Num 1704672000000"
  "iso_date_ms ''2024-01-15'' = Num 1705276800000"
  by (simp_all add: iso_date_ms_def digit_of_def days_in_month_def days_from_civil_def)

lemma week_start_of_examples:
  "week_start_of ''2024-01-01 to 2024-01-07'' = ''2024-01-01''"
  "week_start_of ''2024-01-08 to 2024-01-14'' = ''2024-01-08''"
  "week_start_of ''2024-01-15 to 2024-01-21'' = ''2024-01-15''"
  by (simp_all add: week_start_of_def)

lemma weekly_example:
  "map (\<lambda>e. week_start_of (weekLabel e))
     (sortedWeeks iso_date_ms
        [weekly_campaign [week_record ''2024-01-08'' ''2024-01-14'' 10 20,
                          week_record ''2024-01-01'' ''2024-01-07'' 30 40,
                          week_record ''2024-01-15'' ''2024-01-21'' 50 60]]) =
     [''2024-01-01'', ''2024-01-08'', ''2024-01-15'']"
  by (simp add: sortedWeeks_def weekly_loop_def weekly_campaign_def week_record_def
      weekly_step_def weekKey_def js_sort_def week_start_of_examples iso_dates_example js_sub_def)

text \<open>
  C6. When every week start of the dataset is a date string that the parser accepts (and
  that the split of the composite key gives back, as it does for a start without a blank),
  the weekly series comes out sorted ascending by the parsed week start, whatever the
  order of the weeks in the input; its labels are the week starts of the dataset, the
  same for the spend and the revenue series. Weeks given in the
  order 2024-01-08, 2024-01-01, 2024-01-15 come out as 2024-01-01, 2024-01-08,
  2024-01-15.
\<close>

theorem C6_weekly_series_sorted:
  "(list_all (valid_start getTime) (all_weeks cs) \<longrightarrow>
      (\<exists>out. weeklyChartData getTime (Some cs) = Some out \<and>
         sorted_wrt (\<lambda>a b. js_le (getTime (cp_label a)) (getTime (cp_label b))) (w_spendData out) \<and>
         sorted_wrt (\<lambda>a b. js_le (getTime (cp_label a)) (getTime (cp_label b))) (w_revenueData out) \<and>
         set (map cp_label (w_spendData out)) = week_start ` set (all_weeks cs) \<and>
         map cp_label (w_revenueData out) = map cp_label (w_spendData out))) \<and>
   (\<exists>out. weeklyChartData iso_date_ms
            (Some [weekly_campaign [week_record ''2024-01-08'' ''2024-01-14'' 10 20,
                                    week_record ''2024-01-01'' ''2024-01-07'' 30 40,
                                    week_record ''2024-01-15'' ''2024-01-21'' 50 60]]) = Some out \<and>
      map cp_label (w_spendData out) = [''2024-01-01'', ''2024-01-08'', ''2024-01-15''] \<and>
      map cp_label (w_revenueData out) = [''2024-01-01'', ''2024-01-08'', ''2024-01-15''])"
proof (intro conjI impI)
  assume valid: "list_all (valid_start getTime) (all_weeks cs)"
  define out where "out =
     \<lparr>w_spendData =
        map (\<lambda>week. \<lparr>cp_label = week_start_of (weekLabel week), cp_value = wk_spend week\<rparr>)
          (sortedWeeks getTime cs),
      w_revenueData =
        map (\<lambda>week. \<lparr>cp_label = week_start_of (weekLabel week), cp_value = wk_revenue week\<rparr>)
          (sortedWeeks getTime cs)\<rparr>"
  have res: "weeklyChartData getTime (Some cs) = Some out"
    by (simp add: weeklyChartData_def out_def)
  have s1: "sorted_wrt (\<lambda>a b. js_le (getTime (cp_label a)) (getTime (cp_label b))) (w_spendData out)"
    using sortedWeeks_sorted[OF valid] by (simp add: out_def sorted_wrt_map)
  have s2: "sorted_wrt (\<lambda>a b. js_le (getTime (cp_label a)) (getTime (cp_label b))) (w_revenueData out)"
    using sortedWeeks_sorted[OF valid] by (simp add: out_def sorted_wrt_map)
  have l1: "set (map cp_label (w_spendData out)) = week_start ` set (all_weeks cs)"
    using sortedWeeks_labels[OF valid] by (simp add: out_def comp_def)
  have l2: "map cp_label (w_revenueData out) = map cp_label (w_spendData out)"
    by (simp add: out_def)
  from res s1 s2 l1 l2
  show "\<exists>out. weeklyChartData getTime (Some cs) = Some out \<and>
         sorted_wrt (\<lambda>a b. js_le (getTime (cp_label a)) (getTime (cp_label b))) (w_spendData out) \<and>
         sorted_wrt (\<lambda>a b. js_le (getTime (cp_label a)) (getTime (cp_label b))) (w_revenueData out) \<and>
         set (map cp_label (w_spendData out)) = week_start ` set (all_weeks cs) \<and>
         map cp_label (w_revenueData out) = map cp_label (w_spendData out)"
    by blast
next
  show "\<exists>out. weeklyChartData iso_date_ms
            (Some [weekly_campaign [week_record ''2024-01-08'' ''2024-01-14'' 10 20,
                                    week_record ''2024-01-01'' ''2024-01-07'' 30 40,
                                    week_record ''2024-01-15'' ''2024-01-21'' 50 60]]) = Some out \<and>
      map cp_label (w_spendData out) = [''2024-01-01'', ''2024-01-08'', ''2024-01-15''] \<and>
      map cp_label (w_revenueData out) = [''2024-01-01'', ''2024-01-08'', ''2024-01-15'']"
    using weekly_example by (simp add: weeklyChartData_def comp_def)
qed

theorem C6_weekly_series_sorted_witness:
  "list_all (valid_start iso_date_ms)
     (all_weeks [weekly_campaign [week_record ''2024-01-08'' ''2024-01-14'' 10 20,
                                  week_record ''2024-01-01'' ''2024-01-07'' 30 40,
                                  week_record ''2024-01-15'' ''2024-01-21'' 50 60]]) \<and>
   (\<exists>out. weeklyChartData iso_date_ms
            (Some [weekly_campaign [week_record ''2024-01-08'' ''2024-01-14'' 10 20,
                                    week_record ''2024-01-01'' ''2024-01-07'' 30 40,
                                    week_record ''2024-01-15'' ''2024-01-21'' 50 60]]) = Some out \<and>
      sorted_wrt (\<lambda>a b. js_le (iso_date_ms (cp_label a)) (iso_date_ms (cp_label b)))
        (w_spendData out) \<and>
      map (\<lambda>p. (cp_label p, cp_value p)) (w_spendData out) =
        [(''2024-01-01'', 30), (''2024-01-08'', 10), (''2024-01-15'', 50)])"
proof -
  let ?cs = "[weekly_campaign [week_record ''2024-01-08'' ''2024-01-14'' 10 20,
                                  week_record ''2024-01-01'' ''2024-01-07'' 30 40,
                                  week_record ''2024-01-15'' ''2024-01-21'' 50 60]]"
  have valid: "list_all (valid_start iso_date_ms) (all_weeks ?cs)"
    by (simp add: all_weeks_def weekly_campaign_def week_record_def valid_start_def
        weekKey_def week_start_of_examples iso_dates_example)
  have vals: "map (\<lambda>e. (week_start_of (weekLabel e), wk_spend e)) (sortedWeeks iso_date_ms ?cs) =
      [(''2024-01-01'', 30), (''2024-01-08'', 10), (''2024-01-15'', 50)]"
    by (simp add: sortedWeeks_def weekly_loop_def weekly_campaign_def week_record_def
      weekly_step_def weekKey_def js_sort_def week_start_of_examples iso_dates_example js_sub_def)
  from C6_weekly_series_sorted[of iso_date_ms ?cs] valid vals show ?thesis
    by (auto simp: weeklyChartData_def comp_def)
qed

end
